theory Spec2Isabelle
  imports Main "HOL-Library.Word"
begin

unbundle bit_operations_syntax

section \<open>Constants and types of core.h\<close>

text \<open>
  The enumeration \<^verbatim>\<open>Argon2_core_constants\<close>. \<^verbatim>\<open>ARGON2_WORDS_IN_BLOCK\<close> is written
  as the header computes it, by (truncating) division of the block size by 8.
\<close>

definition ARGON2_VERSION_NUMBER :: nat where
  "ARGON2_VERSION_NUMBER = 0x10"

definition ARGON2_BLOCK_SIZE :: nat where
  "ARGON2_BLOCK_SIZE = 1024"

definition ARGON2_WORDS_IN_BLOCK :: nat where
  "ARGON2_WORDS_IN_BLOCK = ARGON2_BLOCK_SIZE div 8"

definition ARGON2_QWORDS_IN_BLOCK :: nat where
  "ARGON2_QWORDS_IN_BLOCK = 64"

definition ARGON2_ADDRESSES_IN_BLOCK :: nat where
  "ARGON2_ADDRESSES_IN_BLOCK = 128"

definition ARGON2_PREHASH_DIGEST_LENGTH :: nat where
  "ARGON2_PREHASH_DIGEST_LENGTH = 64"

definition ARGON2_PREHASH_SEED_LENGTH :: nat where
  "ARGON2_PREHASH_SEED_LENGTH = 72"

datatype Argon2_type = Argon2_d | Argon2_i

type_synonym byte = "8 word"

text \<open>
  \<^verbatim>\<open>struct _block { uint64_t v[ARGON2_WORDS_IN_BLOCK]; }\<close>, declared with
  \<^verbatim>\<open>aligned(16)\<close>. The array is a list; \<open>wf_block\<close> is the length the C type fixes.
\<close>

record block =
  v :: "64 word list"

definition wf_block :: "block \<Rightarrow> bool" where
  "wf_block b \<longleftrightarrow> length (v b) = ARGON2_WORDS_IN_BLOCK"

text \<open>The alignment attribute of the structure, in bytes.\<close>

definition block_align :: nat where
  "block_align = 16"

text \<open>
  The size of the structure as C lays it out: the size of its only member, a
  \<^verbatim>\<open>uint64_t\<close> array, rounded up to a multiple of the alignment.
\<close>

definition sizeof_block :: nat where
  "sizeof_block = ((ARGON2_WORDS_IN_BLOCK * 8 + block_align - 1) div block_align) * block_align"

text \<open>The byte address of element \<open>i\<close> of a block array that starts at \<open>base\<close>.\<close>

definition block_address :: "nat \<Rightarrow> nat \<Rightarrow> nat" where
  "block_address base i = base + i * sizeof_block"

text \<open>
  \<^verbatim>\<open>struct _Argon2_instance_t\<close>: the memory pointer, and the fields the header
  declares \<^verbatim>\<open>const\<close>. A null pointer is \<open>None\<close>; a pointer to an allocated array
  is \<open>Some\<close> of the array's contents.
\<close>

record Argon2_instance_t =
  memory :: "block list option"
  passes :: "32 word"
  memory_blocks :: "32 word"
  segment_length :: "32 word"
  lane_length :: "32 word"
  lanes :: "32 word"
  threads :: "32 word"
  type :: Argon2_type
  print_internals :: bool

text \<open>\<^verbatim>\<open>struct _Argon2_position_t\<close>.\<close>

record Argon2_position_t =
  pass :: "32 word"
  lane :: "32 word"
  slice :: "8 word"
  index :: "32 word"

section \<open>The byte image of a block\<close>

text \<open>
  A 64-bit word and its eight bytes in memory, least significant byte first (the
  header's \<^verbatim>\<open>BSWAP32\<close> is there for hosts that are not little-endian).
\<close>

definition load64 :: "byte list \<Rightarrow> 64 word" where
  "load64 bs = foldr (\<lambda>b w. ucast b OR push_bit 8 w) bs 0"

definition store64 :: "64 word \<Rightarrow> byte list" where
  "store64 w = map (\<lambda>i. ucast (drop_bit (8 * i) w)) [0..<8]"

definition store32 :: "32 word \<Rightarrow> byte list" where
  "store32 w = map (\<lambda>i. ucast (drop_bit (8 * i) w)) [0..<4]"

text \<open>The \<^verbatim>\<open>sizeof(b->v)\<close> bytes of a block, and the block a byte image stands for.\<close>

definition block_bytes :: "block \<Rightarrow> byte list" where
  "block_bytes b = concat (map store64 (v b))"

definition load_block :: "byte list \<Rightarrow> block" where
  "load_block bs =
     \<lparr>v = map (\<lambda>i. load64 (take 8 (drop (8 * i) bs))) [0..<ARGON2_WORDS_IN_BLOCK]\<rparr>"

text \<open>
  The preconditions core.h states for the buffer \<open>blockhash\<close>: \<^verbatim>\<open>initial_hash\<close> wants
  "at least PREHASH_DIGEST_LENGTH bytes allocated", \<^verbatim>\<open>fill_firsts_blocks\<close> wants it to
  "point to PREHASH_SEED_LENGTH allocated values".
\<close>

definition initial_hash_pre :: "byte list \<Rightarrow> bool" where
  "initial_hash_pre blockhash \<longleftrightarrow> ARGON2_PREHASH_DIGEST_LENGTH \<le> length blockhash"

definition fill_firsts_blocks_pre :: "byte list \<Rightarrow> bool" where
  "fill_firsts_blocks_pre blockhash \<longleftrightarrow> ARGON2_PREHASH_SEED_LENGTH \<le> length blockhash"

section \<open>Functions that work with the block\<close>

text \<open>
  core.h declares the three functions \<^verbatim>\<open>extern\<close> and has no body for them. Each is
  modelled as returning the new contents of the block its first pointer refers to;
  \<open>src\<close> is \<^verbatim>\<open>const\<close>, and \<open>dst\<close> and \<open>src\<close> are separate objects.
\<close>

text \<open>
  Modelled from the spec: the body of \<^verbatim>\<open>init_block_value\<close>, "sets every byte of
  \<open>b\<close> to \<open>value\<close>" (the header: "Initialize each byte of the block with @in").
\<close>

definition init_block_value :: "block \<Rightarrow> byte \<Rightarrow> block" where
  "init_block_value b x = load_block (replicate ARGON2_BLOCK_SIZE x)"

text \<open>
  Modelled from the spec: the body of \<^verbatim>\<open>copy_block\<close>, "an exact word-for-word
  copy" (the header: "Copy block @src to block @dst"), one word after the other.
\<close>

definition copy_block :: "block \<Rightarrow> block \<Rightarrow> block" where
  "copy_block dst src =
     dst\<lparr>v := fold (\<lambda>i d. d[i := v src ! i]) [0..<ARGON2_WORDS_IN_BLOCK] (v dst)\<rparr>"

text \<open>
  Modelled from the spec: the body of \<^verbatim>\<open>xor_block\<close>, "XORs \<open>src\<close> into \<open>dst\<close>
  word-by-word" (the header: "XOR @src onto @dst bytewise"), one word after the
  other.
\<close>

definition xor_block :: "block \<Rightarrow> block \<Rightarrow> block" where
  "xor_block dst src =
     dst\<lparr>v := fold (\<lambda>i d. d[i := d ! i XOR v src ! i]) [0..<ARGON2_WORDS_IN_BLOCK] (v dst)\<rparr>"

text \<open>
  Modelled from the spec: the same three functions on blocks that are reached
  through pointers. A store maps the address of a block to its contents; the
  functions take the addresses, which may be equal, and read \<open>src\<close> anew for every
  word.
\<close>

type_synonym block_store = "nat \<Rightarrow> block"

definition init_block_value_at :: "block_store \<Rightarrow> nat \<Rightarrow> byte \<Rightarrow> block_store" where
  "init_block_value_at s b x = s(b := load_block (replicate ARGON2_BLOCK_SIZE x))"

definition copy_block_at :: "block_store \<Rightarrow> nat \<Rightarrow> nat \<Rightarrow> block_store" where
  "copy_block_at s dst src =
     fold (\<lambda>i s. s(dst := (s dst)\<lparr>v := (v (s dst))[i := v (s src) ! i]\<rparr>))
       [0..<ARGON2_WORDS_IN_BLOCK] s"

definition xor_block_at :: "block_store \<Rightarrow> nat \<Rightarrow> nat \<Rightarrow> block_store" where
  "xor_block_at s dst src =
     fold (\<lambda>i s. s(dst := (s dst)\<lparr>v := (v (s dst))[i := v (s dst) ! i XOR v (s src) ! i]\<rparr>))
       [0..<ARGON2_WORDS_IN_BLOCK] s"

section \<open>Example inputs\<close>

text \<open>Two concrete blocks, and a store that holds them at two addresses.\<close>

definition example_dst :: block where
  "example_dst = \<lparr>v = replicate 128 5\<rparr>"

definition example_src :: block where
  "example_src = \<lparr>v = replicate 128 3\<rparr>"

definition example_store :: block_store where
  "example_store = (\<lambda>a. if a = 0 then example_dst else example_src)"

section \<open>Bytes and words\<close>

lemma load64_Cons: "load64 (b # bs) = ucast b OR push_bit 8 (load64 bs)"
  by (simp add: load64_def)

lemma bit_byte_lt: "bit (b :: byte) n \<Longrightarrow> n < 8"
  using bit_imp_le_length [of b n] by simp

lemma bit_load64_step:
  "bit (ucast (b :: byte) OR push_bit 8 (w :: 64 word)) n \<longleftrightarrow>
     (if n < 8 then bit b n else n < 64 \<and> bit w (n - 8))"
proof (cases "n < 8")
  case True
  then show ?thesis
    by (simp add: bit_or_iff bit_ucast_iff bit_push_bit_iff)
next
  case False
  then have "\<not> bit b n" using bit_byte_lt by blast
  with False show ?thesis
    by (simp add: bit_or_iff bit_ucast_iff bit_push_bit_iff)
qed

lemma bit_load64:
  "bit (load64 bs) n \<longleftrightarrow> n < 64 \<and> n div 8 < length bs \<and> bit (bs ! (n div 8)) (n mod 8)"
proof (induction bs arbitrary: n)
  case Nil
  then show ?case by (simp add: load64_def)
next
  case (Cons b bs)
  show ?case
  proof (cases "n < 8")
    case True
    then show ?thesis
      by (simp add: load64_Cons bit_load64_step)
  next
    case False
    then have d: "n div 8 = Suc ((n - 8) div 8)" and m: "n mod 8 = (n - 8) mod 8"
      by (simp_all add: le_div_geq le_mod_geq)
    have "bit (load64 (b # bs)) n \<longleftrightarrow> n < 64 \<and> bit (load64 bs) (n - 8)"
      using False by (simp add: load64_Cons bit_load64_step)
    also have "\<dots> \<longleftrightarrow> n < 64 \<and> (n - 8) div 8 < length bs
        \<and> bit (bs ! ((n - 8) div 8)) ((n - 8) mod 8)"
      using Cons.IH [of "n - 8"] by auto
    also have "\<dots> \<longleftrightarrow> n < 64 \<and> n div 8 < length (b # bs)
        \<and> bit ((b # bs) ! (n div 8)) (n mod 8)"
      by (simp add: d m)
    finally show ?thesis .
  qed
qed

lemma byte_of_load64:
  assumes "i < length bs" and "length bs \<le> 8"
  shows "(ucast (drop_bit (8 * i) (load64 bs)) :: byte) = bs ! i"
proof (rule bit_word_eqI)
  fix n
  assume "n < LENGTH(8)"
  then have n: "n < 8" by simp
  then have dm: "(8 * i + n) div 8 = i" "n mod 8 = n"
    by simp_all
  from n assms have lt: "8 * i + n < 64" by simp
  have "bit (ucast (drop_bit (8 * i) (load64 bs)) :: byte) n
      \<longleftrightarrow> bit (load64 bs) (8 * i + n)"
    using n by (simp add: bit_ucast_iff bit_drop_bit_eq)
  also have "\<dots> \<longleftrightarrow> bit (bs ! i) n"
    using lt assms by (simp add: bit_load64 dm)
  finally show "bit (ucast (drop_bit (8 * i) (load64 bs)) :: byte) n \<longleftrightarrow> bit (bs ! i) n" .
qed

lemma store64_load64: "length bs = 8 \<Longrightarrow> store64 (load64 bs) = bs"
  by (rule nth_equalityI) (simp_all add: store64_def byte_of_load64)

lemma length_store64: "length (store64 w) = 8"
  by (simp add: store64_def)

lemma length_store32: "length (store32 w) = 4"
  by (simp add: store32_def)

lemma concat_chunks:
  "concat (map (\<lambda>i. take k (drop (k * i) xs)) [0..<n]) = take (k * n) xs"
proof (induction n)
  case 0
  then show ?case by simp
next
  case (Suc n)
  have "take (k * n) xs @ take k (drop (k * n) xs) = take (k * n + k) xs"
    by (simp add: take_add)
  with Suc show ?case by (simp add: add.commute)
qed

lemma length_block_bytes: "length (block_bytes b) = 8 * length (v b)"
  by (induction "v b" arbitrary: b) (simp_all add: block_bytes_def length_concat length_store64 comp_def sum_list_triv)

lemma block_bytes_load_block:
  assumes "length bs = ARGON2_BLOCK_SIZE"
  shows "block_bytes (load_block bs) = bs"
proof -
  have chunk: "store64 (load64 (take 8 (drop (8 * i) bs))) = take 8 (drop (8 * i) bs)"
    if "i < ARGON2_WORDS_IN_BLOCK" for i
  proof (rule store64_load64)
    from that assms show "length (take 8 (drop (8 * i) bs)) = 8"
      by (simp add: ARGON2_WORDS_IN_BLOCK_def ARGON2_BLOCK_SIZE_def)
  qed
  have "block_bytes (load_block bs)
      = concat (map (\<lambda>i. store64 (load64 (take 8 (drop (8 * i) bs)))) [0..<ARGON2_WORDS_IN_BLOCK])"
    by (simp add: block_bytes_def load_block_def comp_def)
  also have "\<dots> = concat (map (\<lambda>i. take 8 (drop (8 * i) bs)) [0..<ARGON2_WORDS_IN_BLOCK])"
    by (rule arg_cong [where f = concat], rule map_cong) (simp_all add: chunk)
  also have "\<dots> = take (8 * ARGON2_WORDS_IN_BLOCK) bs"
    by (rule concat_chunks)
  also have "\<dots> = bs"
    using assms by (simp add: ARGON2_WORDS_IN_BLOCK_def ARGON2_BLOCK_SIZE_def)
  finally show ?thesis .
qed

lemma wf_load_block: "wf_block (load_block bs)"
  by (simp add: wf_block_def load_block_def)

lemma fold_update_prefix:
  "n \<le> length d \<Longrightarrow>
     fold (\<lambda>i d. d[i := g i (d ! i)]) [0..<n] d = map (\<lambda>i. g i (d ! i)) [0..<n] @ drop n d"
proof (induction n)
  case 0
  then show ?case by simp
next
  case (Suc n)
  then have n: "n < length d" by simp
  let ?A = "map (\<lambda>i. g i (d ! i)) [0..<n]"
  have len: "length ?A = n" by simp
  have "fold (\<lambda>i d. d[i := g i (d ! i)]) [0..<Suc n] d
      = (?A @ drop n d)[n := g n ((?A @ drop n d) ! n)]"
    using Suc by simp
  also have "(?A @ drop n d) ! n = d ! n"
    using n by (simp add: nth_append)
  also have "(?A @ drop n d)[n := g n (d ! n)] = ?A @ (drop n d)[0 := g n (d ! n)]"
    using len by (simp add: list_update_append)
  also have "(drop n d)[0 := g n (d ! n)] = g n (d ! n) # drop (Suc n) d"
    using n by (simp add: Cons_nth_drop_Suc [symmetric])
  finally show ?case by simp
qed

lemma length_block_bytes_wf: "wf_block b \<Longrightarrow> length (block_bytes b) = ARGON2_BLOCK_SIZE"
  by (simp add: length_block_bytes wf_block_def ARGON2_WORDS_IN_BLOCK_def ARGON2_BLOCK_SIZE_def)

lemma block_bytes_init_block_value:
  "block_bytes (init_block_value b x) = replicate ARGON2_BLOCK_SIZE x"
  by (simp add: init_block_value_def block_bytes_load_block)

lemma v_copy_block:
  assumes "wf_block dst" and "wf_block src"
  shows "v (copy_block dst src) = v src"
proof -
  let ?n = ARGON2_WORDS_IN_BLOCK
  from assms have len: "length (v dst) = ?n" "length (v src) = ?n"
    by (simp_all add: wf_block_def)
  have "v (copy_block dst src) = fold (\<lambda>i d. d[i := (\<lambda>i y. v src ! i) i (d ! i)]) [0..<?n] (v dst)"
    by (simp add: copy_block_def)
  also have "\<dots> = map (\<lambda>i. v src ! i) [0..<?n] @ drop ?n (v dst)"
    by (rule fold_update_prefix) (simp add: len)
  also have "map (\<lambda>i. v src ! i) [0..<?n] = v src"
    using map_nth [of "v src"] by (simp only: len)
  finally show ?thesis
    using len by simp
qed

lemma v_xor_block:
  assumes "wf_block dst"
  shows "v (xor_block dst src) = map (\<lambda>i. v dst ! i XOR v src ! i) [0..<ARGON2_WORDS_IN_BLOCK]"
proof -
  let ?n = ARGON2_WORDS_IN_BLOCK
  from assms have len: "length (v dst) = ?n"
    by (simp add: wf_block_def)
  have "v (xor_block dst src)
      = fold (\<lambda>i d. d[i := (\<lambda>i y. y XOR v src ! i) i (d ! i)]) [0..<?n] (v dst)"
    by (simp add: xor_block_def)
  also have "\<dots> = map (\<lambda>i. v dst ! i XOR v src ! i) [0..<?n] @ drop ?n (v dst)"
    by (rule fold_update_prefix) (simp add: len)
  finally show ?thesis
    using len by simp
qed

lemma words_in_block: "ARGON2_WORDS_IN_BLOCK = 128"
  by (simp add: ARGON2_WORDS_IN_BLOCK_def ARGON2_BLOCK_SIZE_def)

lemma fold_store_prefix:
  assumes "dst \<noteq> src"
  shows "fold (\<lambda>i s. s(dst := (s dst)\<lparr>v := (v (s dst))[i := g i (v (s dst) ! i) (v (s src) ! i)]\<rparr>))
           [0..<n] s
       = s(dst := (s dst)\<lparr>v := fold (\<lambda>i d. d[i := g i (d ! i) (v (s src) ! i)]) [0..<n] (v (s dst))\<rparr>)"
proof (induction n)
  case 0
  then show ?case by simp
next
  case (Suc n)
  let ?step = "\<lambda>i s. s(dst := (s dst)\<lparr>v := (v (s dst))[i := g i (v (s dst) ! i) (v (s src) ! i)]\<rparr>)"
  let ?words = "fold (\<lambda>i d. d[i := g i (d ! i) (v (s src) ! i)]) [0..<n] (v (s dst))"
  let ?mid = "s(dst := (s dst)\<lparr>v := ?words\<rparr>)"
  have "fold ?step [0..<Suc n] s = ?step n (fold ?step [0..<n] s)"
    by simp
  also have "fold ?step [0..<n] s = ?mid"
    by (rule Suc.IH)
  also have "?step n ?mid
      = s(dst := (s dst)\<lparr>v := ?words[n := g n (?words ! n) (v (s src) ! n)]\<rparr>)"
    using assms by simp
  finally show ?case
    by simp
qed

lemma copy_block_at_distinct:
  "dst \<noteq> src \<Longrightarrow> copy_block_at s dst src = s(dst := copy_block (s dst) (s src))"
  unfolding copy_block_at_def copy_block_def
  by (rule fold_store_prefix [where g = "\<lambda>i x y. y"])

lemma xor_block_at_distinct:
  "dst \<noteq> src \<Longrightarrow> xor_block_at s dst src = s(dst := xor_block (s dst) (s src))"
  unfolding xor_block_at_def xor_block_def
  by (rule fold_store_prefix [where g = "\<lambda>i x y. x XOR y"])

lemma fold_store_same:
  "fold (\<lambda>i s. s(a := (s a)\<lparr>v := (v (s a))[i := h i (v (s a) ! i)]\<rparr>)) [0..<n] s
     = s(a := (s a)\<lparr>v := fold (\<lambda>i d. d[i := h i (d ! i)]) [0..<n] (v (s a))\<rparr>)"
proof (induction n)
  case 0
  then show ?case by simp
next
  case (Suc n)
  let ?step = "\<lambda>i s. s(a := (s a)\<lparr>v := (v (s a))[i := h i (v (s a) ! i)]\<rparr>)"
  let ?words = "fold (\<lambda>i d. d[i := h i (d ! i)]) [0..<n] (v (s a))"
  let ?mid = "s(a := (s a)\<lparr>v := ?words\<rparr>)"
  have "fold ?step [0..<Suc n] s = ?step n (fold ?step [0..<n] s)"
    by simp
  also have "fold ?step [0..<n] s = ?mid"
    by (rule Suc.IH)
  also have "?step n ?mid = s(a := (s a)\<lparr>v := ?words[n := h n (?words ! n)]\<rparr>)"
    by simp
  finally show ?case
    by simp
qed

text \<open>
  With one address for both arguments the block is XORed onto itself and ends all
  zero: what \<open>xor_block_at\<close> does to \<open>dst\<close> depends on \<open>src\<close> being another block.
\<close>

lemma xor_block_at_same:
  assumes "wf_block (s a)"
  shows "v (xor_block_at s a a a) = replicate ARGON2_WORDS_IN_BLOCK 0"
proof -
  let ?n = ARGON2_WORDS_IN_BLOCK
  from assms have len: "length (v (s a)) = ?n"
    by (simp add: wf_block_def)
  have "xor_block_at s a a
      = s(a := (s a)\<lparr>v := fold (\<lambda>i d. d[i := (\<lambda>i x. x XOR x) i (d ! i)]) [0..<?n] (v (s a))\<rparr>)"
    unfolding xor_block_at_def by (rule fold_store_same)
  also have "fold (\<lambda>i d. d[i := (\<lambda>i x. x XOR x) i (d ! i)]) [0..<?n] (v (s a))
      = map (\<lambda>i. (\<lambda>i x. x XOR x) i (v (s a) ! i)) [0..<?n] @ drop ?n (v (s a))"
    by (rule fold_update_prefix) (simp add: len)
  finally show ?thesis
    using len by (simp add: map_replicate_const)
qed

section \<open>The block operations\<close>

text \<open>
  Claim C7. For every block \<open>b\<close> and byte \<open>x\<close>, \<open>init_block_value b x\<close> is a block
  all of whose 1024 bytes are \<open>x\<close>. For blocks \<open>dst\<close> and \<open>src\<close> of 128 words each,
  \<open>copy_block\<close> leaves in \<open>dst\<close> an exact copy of \<open>src\<close>, word for word, and
  \<open>xor_block\<close> leaves in every word of \<open>dst\<close> its XOR with the word of \<open>src\<close> at
  the same index. On blocks reached through pointers this is what the functions
  do to the block at the first address, and they change no other block, whenever
  the two addresses are distinct. The three are functions to blocks: they return
  for every argument and have no error result.
\<close>

theorem block_operations:
  "block_bytes (init_block_value b x) = replicate ARGON2_BLOCK_SIZE x
   \<and> (\<forall>i < 1024. block_bytes (init_block_value b x) ! i = x)
   \<and> wf_block (init_block_value b x)
   \<and> (wf_block dst \<and> wf_block src \<longrightarrow>
        copy_block dst src = src
        \<and> (\<forall>i < 128. v (copy_block dst src) ! i = v src ! i))
   \<and> (wf_block dst \<and> wf_block src \<longrightarrow>
        wf_block (xor_block dst src)
        \<and> (\<forall>i < 128. v (xor_block dst src) ! i = v dst ! i XOR v src ! i))
   \<and> init_block_value_at s p x = s(p := init_block_value (s p) x)
   \<and> (p \<noteq> q \<longrightarrow>
        copy_block_at s p q = s(p := copy_block (s p) (s q))
        \<and> xor_block_at s p q = s(p := xor_block (s p) (s q)))"
proof (intro conjI impI allI)
  show init: "block_bytes (init_block_value b x) = replicate ARGON2_BLOCK_SIZE x"
    by (rule block_bytes_init_block_value)
  show "block_bytes (init_block_value b x) ! i = x" if "i < 1024" for i
    using that by (simp add: init ARGON2_BLOCK_SIZE_def)
  show "wf_block (init_block_value b x)"
    by (simp add: init_block_value_def wf_load_block)
  show "init_block_value_at s p x = s(p := init_block_value (s p) x)"
    by (simp add: init_block_value_at_def init_block_value_def)
  show "copy_block_at s p q = s(p := copy_block (s p) (s q))" if "p \<noteq> q"
    using that by (rule copy_block_at_distinct)
  show "xor_block_at s p q = s(p := xor_block (s p) (s q))" if "p \<noteq> q"
    using that by (rule xor_block_at_distinct)
next
  assume wf: "wf_block dst \<and> wf_block src"
  then have eq: "v (copy_block dst src) = v src"
    by (simp add: v_copy_block)
  then show "copy_block dst src = src"
    by (simp add: copy_block_def)
  show "v (copy_block dst src) ! i = v src ! i" for i
    by (simp add: eq)
next
  assume wf: "wf_block dst \<and> wf_block src"
  then have eq: "v (xor_block dst src)
      = map (\<lambda>i. v dst ! i XOR v src ! i) [0..<ARGON2_WORDS_IN_BLOCK]"
    by (simp add: v_xor_block)
  show "wf_block (xor_block dst src)"
    by (simp add: wf_block_def eq)
  show "v (xor_block dst src) ! i = v dst ! i XOR v src ! i" if "i < 128" for i
    using that by (simp add: eq words_in_block)
qed

theorem block_operations_witness:
  "wf_block example_dst \<and> wf_block example_src
   \<and> block_bytes (init_block_value example_dst 9) ! 1000 = 9
   \<and> copy_block example_dst example_src = example_src
   \<and> v (copy_block example_dst example_src) ! 127 = 3
   \<and> wf_block (xor_block example_dst example_src)
   \<and> v (xor_block example_dst example_src) ! 7 = 6
   \<and> (0 :: nat) \<noteq> 1
   \<and> copy_block_at example_store 0 1 0 = example_src
   \<and> copy_block_at example_store 0 1 1 = example_src
   \<and> v (xor_block_at example_store 0 1 0) ! 7 = 6
   \<and> xor_block_at example_store 0 1 1 = example_src"
proof -
  have wf: "wf_block example_dst \<and> wf_block example_src"
    by (simp add: wf_block_def words_in_block example_dst_def example_src_def)
  note ops = block_operations [of example_dst 9 example_dst example_src example_store 0 1]
  from ops have "\<forall>i < 1024. block_bytes (init_block_value example_dst 9) ! i = 9"
    by blast
  then have bytes: "block_bytes (init_block_value example_dst 9) ! 1000 = 9"
    by simp
  from ops wf have copy: "copy_block example_dst example_src = example_src"
    by blast
  from ops wf
  have "\<forall>i < 128. v (copy_block example_dst example_src) ! i = v example_src ! i"
    by blast
  then have copy127: "v (copy_block example_dst example_src) ! 127 = 3"
    by (simp add: example_src_def)
  from ops wf have wfx: "wf_block (xor_block example_dst example_src)"
    by blast
  from ops wf
  have "\<forall>i < 128. v (xor_block example_dst example_src) ! i
      = v example_dst ! i XOR v example_src ! i"
    by blast
  then have xor7: "v (xor_block example_dst example_src) ! 7 = 6"
    by (simp add: example_dst_def example_src_def)
  have ne: "(0 :: nat) \<noteq> 1"
    by simp
  with ops have at: "copy_block_at example_store 0 1
        = example_store(0 := copy_block (example_store 0) (example_store 1))"
      "xor_block_at example_store 0 1
        = example_store(0 := xor_block (example_store 0) (example_store 1))"
    by blast+
  have st: "example_store 0 = example_dst" "example_store (Suc 0) = example_src"
    by (simp_all add: example_store_def)
  from at copy xor7 have "copy_block_at example_store 0 1 0 = example_src"
    "copy_block_at example_store 0 1 1 = example_src"
    "v (xor_block_at example_store 0 1 0) ! 7 = 6"
    "xor_block_at example_store 0 1 1 = example_src"
    by (simp_all add: st)
  with wf bytes copy copy127 wfx xor7 show ?thesis
    by simp
qed

section \<open>The layout of a block\<close>

lemma sizeof_block_eq: "sizeof_block = ARGON2_BLOCK_SIZE"
  by (simp add: sizeof_block_def block_align_def words_in_block ARGON2_BLOCK_SIZE_def)

text \<open>
  Claim C9. A block is exactly 128 words of 64 bits, which are 1024 bytes:
  \<^verbatim>\<open>ARGON2_BLOCK_SIZE\<close> is 1024 and \<^verbatim>\<open>ARGON2_WORDS_IN_BLOCK\<close>, defined as the block size
  divided by 8, is 128. The structure is aligned to 16 bytes; its size is then
  1024 with no padding, so every block of an array that starts at an aligned
  address is aligned.
\<close>

theorem block_layout:
  "ARGON2_BLOCK_SIZE = 1024
   \<and> ARGON2_WORDS_IN_BLOCK = ARGON2_BLOCK_SIZE div 8
   \<and> ARGON2_WORDS_IN_BLOCK = 128
   \<and> (wf_block b \<longleftrightarrow> length (v b) = 128)
   \<and> (wf_block b \<longrightarrow> length (block_bytes b) = 1024)
   \<and> block_align = 16
   \<and> sizeof_block = 1024
   \<and> (block_align dvd base \<longrightarrow> block_align dvd block_address base i)"
proof (intro conjI impI)
  show "ARGON2_BLOCK_SIZE = 1024"
    by (simp add: ARGON2_BLOCK_SIZE_def)
  show "ARGON2_WORDS_IN_BLOCK = ARGON2_BLOCK_SIZE div 8"
    by (simp add: ARGON2_WORDS_IN_BLOCK_def)
  show "ARGON2_WORDS_IN_BLOCK = 128"
    by (rule words_in_block)
  show "wf_block b \<longleftrightarrow> length (v b) = 128"
    by (simp add: wf_block_def words_in_block)
  show "length (block_bytes b) = 1024" if "wf_block b"
    using that by (simp add: length_block_bytes_wf ARGON2_BLOCK_SIZE_def)
  show "block_align = 16"
    by (simp add: block_align_def)
  show size: "sizeof_block = 1024"
    by (simp add: sizeof_block_eq ARGON2_BLOCK_SIZE_def)
  show "block_align dvd block_address base i" if "block_align dvd base"
  proof -
    have "block_align dvd i * sizeof_block"
      by (simp add: size block_align_def)
    with that show ?thesis
      by (simp add: block_address_def)
  qed
qed

theorem block_layout_witness:
  "wf_block example_src \<and> length (block_bytes example_src) = 1024
   \<and> block_align dvd 4096 \<and> block_align dvd block_address 4096 3
   \<and> block_address 4096 3 = 7168"
proof -
  note layout = block_layout [of example_src 4096 3]
  have wf: "wf_block example_src"
    by (simp add: wf_block_def words_in_block example_src_def)
  have al: "block_align dvd 4096"
    by (simp add: block_align_def)
  from layout wf have "length (block_bytes example_src) = 1024"
    by blast
  moreover from layout al have "block_align dvd block_address 4096 3"
    by blast
  moreover from layout have "block_address 4096 3 = 7168"
    by (simp add: block_address_def)
  ultimately show ?thesis
    using wf al by simp
qed

section \<open>The pre-hash buffer\<close>

lemma store32_1: "store32 1 = [1, 0, 0, 0]"
  by code_simp

lemma store32_2: "store32 2 = [2, 0, 0, 0]"
  by code_simp

text \<open>
  Claim C10. \<^verbatim>\<open>ARGON2_PREHASH_SEED_LENGTH\<close> is 72, which is
  \<^verbatim>\<open>ARGON2_PREHASH_DIGEST_LENGTH\<close> plus 8: the room of the block index and the lane
  index, four bytes each. A buffer of the digest length is all \<^verbatim>\<open>initial_hash\<close>
  asks for and less than \<^verbatim>\<open>fill_firsts_blocks\<close> asks for; the digest followed by the
  two indices is exactly of the seed length, which is what \<^verbatim>\<open>fill_firsts_blocks\<close>
  asks for; and in a buffer of the seed length what follows the digest is exactly as
  long as the two indices.
\<close>

theorem prehash_seed_length:
  "ARGON2_PREHASH_DIGEST_LENGTH = 64
   \<and> ARGON2_PREHASH_SEED_LENGTH = 72
   \<and> ARGON2_PREHASH_SEED_LENGTH = ARGON2_PREHASH_DIGEST_LENGTH + 8
   \<and> length (store32 i) = 4 \<and> length (store32 l) = 4
   \<and> (length digest = ARGON2_PREHASH_DIGEST_LENGTH \<longrightarrow>
        initial_hash_pre digest
        \<and> \<not> fill_firsts_blocks_pre digest
        \<and> length (digest @ store32 i @ store32 l) = ARGON2_PREHASH_SEED_LENGTH
        \<and> fill_firsts_blocks_pre (digest @ store32 i @ store32 l))
   \<and> (fill_firsts_blocks_pre blockhash \<longrightarrow> initial_hash_pre blockhash)
   \<and> (length blockhash = ARGON2_PREHASH_SEED_LENGTH \<longrightarrow>
        length (drop ARGON2_PREHASH_DIGEST_LENGTH blockhash) = length (store32 i @ store32 l))"
  by (simp add: initial_hash_pre_def fill_firsts_blocks_pre_def length_store32
      ARGON2_PREHASH_DIGEST_LENGTH_def ARGON2_PREHASH_SEED_LENGTH_def)

theorem prehash_seed_length_witness:
  "length (replicate 64 (9 :: byte)) = ARGON2_PREHASH_DIGEST_LENGTH
   \<and> initial_hash_pre (replicate 64 9)
   \<and> \<not> fill_firsts_blocks_pre (replicate 64 9)
   \<and> replicate 64 9 @ store32 1 @ store32 2 = replicate 64 9 @ [1, 0, 0, 0, 2, 0, 0, 0]
   \<and> length (replicate 64 9 @ [1, 0, 0, 0, 2, 0, 0, 0 :: byte]) = ARGON2_PREHASH_SEED_LENGTH
   \<and> fill_firsts_blocks_pre (replicate 64 9 @ [1, 0, 0, 0, 2, 0, 0, 0])
   \<and> initial_hash_pre (replicate 64 9 @ [1, 0, 0, 0, 2, 0, 0, 0])
   \<and> length (drop ARGON2_PREHASH_DIGEST_LENGTH (replicate 64 9 @ [1, 0, 0, 0, 2, 0, 0, 0 :: byte]))
       = length (store32 1 @ store32 2)"
proof -
  let ?seed = "replicate 64 9 @ [1, 0, 0, 0, 2, 0, 0, 0 :: byte]"
  have digest: "length (replicate 64 (9 :: byte)) = ARGON2_PREHASH_DIGEST_LENGTH"
    by (simp add: ARGON2_PREHASH_DIGEST_LENGTH_def)
  have seed: "replicate 64 9 @ store32 1 @ store32 2 = ?seed"
    by (simp add: store32_1 store32_2)
  note short = prehash_seed_length [of 1 2 "replicate 64 9" ?seed]
  from short digest
  have d: "initial_hash_pre (replicate 64 9) \<and> \<not> fill_firsts_blocks_pre (replicate 64 9)"
    by blast
  from short digest
  have "length (replicate 64 9 @ store32 1 @ store32 2) = ARGON2_PREHASH_SEED_LENGTH
    \<and> fill_firsts_blocks_pre (replicate 64 9 @ store32 1 @ store32 2)"
    by blast
  with seed have s: "length ?seed = ARGON2_PREHASH_SEED_LENGTH \<and> fill_firsts_blocks_pre ?seed"
    by simp
  with short have i: "initial_hash_pre ?seed"
    by blast
  from short s
  have r: "length (drop ARGON2_PREHASH_DIGEST_LENGTH ?seed) = length (store32 1 @ store32 2)"
    by blast
  from digest d seed s i r show ?thesis
    by blast
qed

end
